theory Spec2Isabelle
  imports
    Complex_Main
    "HOL-Library.AList"
    "HOL-Library.Char_ord"
    "HOL-Library.List_Lexorder"
    "HOL-Library.Sublist"
begin

section \<open>django-filebrowser: \<^verbatim>\<open>filebrowser/sites.py\<close>\<close>

text \<open>
  A shallow embedding of the site module of django-filebrowser: the process-wide site
  cache, the per-site action registry, the date filter, the filter loop and the
  pagination of the \<^verbatim>\<open>browse\<close> view, and the upload view \<^verbatim>\<open>_upload_file\<close>.

  Python strings are modelled as \<^typ>\<open>string\<close>; one \<^typ>\<open>char\<close> stands for one code
  point below 256. Exceptions are values of the type \<open>error\<close>; a function that can
  raise returns \<open>error + 'a\<close> with \<open>Inl\<close> for the exception.
\<close>

subsection \<open>Exceptions\<close>

datatype error =
    KeyError
  | AttributeError
  | Re_error
  | OverflowError
  | OSError
  | ValueError
  | ZeroDivisionError
  | PageNotAnInteger
  | EmptyPage
  | SuspiciousFileOperation

text \<open>Sequencing of calls that may raise: the first exception is propagated.\<close>

definition bind_err :: "error + 'a \<Rightarrow> ('a \<Rightarrow> error + 'b) \<Rightarrow> error + 'b" where
  "bind_err m f = (case m of Inl e \<Rightarrow> Inl e | Inr x \<Rightarrow> f x)"

subsection \<open>File objects\<close>

text \<open>
  Modelled from the spec: the class \<^verbatim>\<open>FileObject\<close> of \<^verbatim>\<open>filebrowser/base.py\<close>, as
  far as the views read its attributes. \<open>filename\<close> is the base name of the path,
  \<open>filetype\<close> is one of a closed set of categories, \<^verbatim>\<open>"Folder"\<close> for a
  directory, \<open>date\<close> is the modification time in seconds since the epoch, or
  \<^verbatim>\<open>None\<close> if the backend cannot give it, and \<open>format\<close> is a category string,
  possibly empty.
\<close>

record fileobject =
  filename :: string
  filetype :: string
  date :: "int option"
  format :: string

subsection \<open>The site cache\<close>

text \<open>
  \<^verbatim>\<open>_sites_cache = {}\<close> maps an application name to a dictionary from site names to
  sites. The state is passed explicitly; the types of site names (a string or
  \<^verbatim>\<open>None\<close>) and of sites are left open.
\<close>

type_synonym ('n, 's) sites_cache = "string \<rightharpoonup> ('n \<rightharpoonup> 's)"

definition register_site ::
  "('n, 's) sites_cache \<Rightarrow> string \<Rightarrow> 'n \<Rightarrow> 's \<Rightarrow> ('n, 's) sites_cache" where
  "register_site cache app_name site_name site =
     (let cache1 = (if app_name \<notin> dom cache then cache(app_name \<mapsto> Map.empty) else cache)
      in cache1(app_name \<mapsto> (the (cache1 app_name))(site_name \<mapsto> site)))"

text \<open>The subscript expression \<^verbatim>\<open>_sites_cache[app_name][site_name]\<close>.\<close>

definition sites_cache_lookup :: "('n, 's) sites_cache \<Rightarrow> string \<Rightarrow> 'n \<Rightarrow> error + 's" where
  "sites_cache_lookup cache app_name site_name =
     (case cache app_name of
        None \<Rightarrow> Inl KeyError
      | Some d \<Rightarrow> (case d site_name of None \<Rightarrow> Inl KeyError | Some s \<Rightarrow> Inr s))"

text \<open>
  \<^verbatim>\<open>get_site_dict\<close>: the resolver's \<^verbatim>\<open>app_dict\<close> (application name to the list of
  deployed instance names) comes from Django's URL configuration and is a parameter.
\<close>

definition get_site_dict ::
  "('n, 's) sites_cache \<Rightarrow> (string \<rightharpoonup> 'n list) \<Rightarrow> string \<Rightarrow> error + ('n \<rightharpoonup> 's)" where
  "get_site_dict cache app_dict app_name =
     (if app_name \<notin> dom cache then Inr Map.empty
      else case app_dict app_name of
             None \<Rightarrow> Inl KeyError
           | Some deployed \<Rightarrow> Inr (the (cache app_name) |` set deployed))"

subsection \<open>The action registry\<close>

text \<open>
  An action is a callable with a \<^verbatim>\<open>__name__\<close> and two optional attributes;
  \<open>None\<close> stands for an attribute the object does not have. The description is a
  text of arbitrary characters, a list of code points (\<open>unicode\<close>).
\<close>

type_synonym unicode = "nat list"

record action =
  action_name :: string
  short_description :: "unicode option"
  applies_to :: "(fileobject \<Rightarrow> bool) option"

text \<open>
  A Python dictionary keeps its keys in insertion order: assigning to a present key
  replaces the value in place, assigning to a new key appends it
  (\<^const>\<open>AList.update\<close>), \<^verbatim>\<open>del\<close> of an absent key raises \<^verbatim>\<open>KeyError\<close>.
\<close>

type_synonym 'v pydict = "(string \<times> 'v) list"

definition dict_del :: "'v pydict \<Rightarrow> string \<Rightarrow> error + 'v pydict" where
  "dict_del d k = (if k \<in> fst ` set d then Inr (AList.delete k d) else Inl KeyError)"

definition dict_get :: "'v pydict \<Rightarrow> string \<Rightarrow> error + 'v" where
  "dict_get d k = (case map_of d k of None \<Rightarrow> Inl KeyError | Some v \<Rightarrow> Inr v)"

text \<open>The part of a \<^verbatim>\<open>FileBrowserSite\<close> instance the registry works on.\<close>

record site =
  site_name :: "string option"
  app_name :: string
  directory :: string
  priv_actions :: "action pydict"
  priv_global_actions :: "action pydict"

text \<open>
  \<^verbatim>\<open>str.lower\<close> on code points below 256: the letters \<^verbatim>\<open>A\<close> to \<^verbatim>\<open>Z\<close> and
  \<^verbatim>\<open>0xC0\<close> to \<^verbatim>\<open>0xDE\<close>, without the multiplication sign \<^verbatim>\<open>0xD7\<close>, move up
  by 32.
\<close>

definition lower_char :: "char \<Rightarrow> char" where
  "lower_char c =
     (let n = (of_char c :: nat)
      in if (65 \<le> n \<and> n \<le> 90) \<or> (192 \<le> n \<and> n \<le> 222 \<and> n \<noteq> 215)
         then char_of (n + 32) else c)"

definition lower :: "string \<Rightarrow> string" where
  "lower s = map lower_char s"

text \<open>
  \<^verbatim>\<open>str.capitalize\<close>: the first character in title case, the rest in lower case.
  The title case of a character below 256 is its upper case, 32 below, for the
  letters \<^verbatim>\<open>a\<close> to \<^verbatim>\<open>z\<close> and \<^verbatim>\<open>0xE0\<close> to \<^verbatim>\<open>0xFE\<close> without the division
  sign \<^verbatim>\<open>0xF7\<close>; it is the two characters \<^verbatim>\<open>Ss\<close> for \<^verbatim>\<open>0xDF\<close>, and it lies
  beyond 255 for \<^verbatim>\<open>0xB5\<close> (\<^verbatim>\<open>U+039C\<close>) and \<^verbatim>\<open>0xFF\<close> (\<^verbatim>\<open>U+0178\<close>). The
  result is therefore a list of code points.
\<close>

definition title_char :: "char \<Rightarrow> unicode" where
  "title_char c =
     (let n = (of_char c :: nat)
      in if (97 \<le> n \<and> n \<le> 122) \<or> (224 \<le> n \<and> n \<le> 254 \<and> n \<noteq> 247) then [n - 32]
         else if n = 223 then [83, 115]
         else if n = 181 then [924]
         else if n = 255 then [376]
         else [n])"

definition capitalize :: "string \<Rightarrow> unicode" where
  "capitalize s =
     (case s of [] \<Rightarrow> [] | c # cs \<Rightarrow> title_char c @ map of_char (lower cs))"

definition replace_char :: "char \<Rightarrow> char \<Rightarrow> string \<Rightarrow> string" where
  "replace_char a b s = map (\<lambda>c. if c = a then b else c) s"

text \<open>
  \<^verbatim>\<open>add_action\<close> fills in the missing attributes of the action object itself and
  stores that object in both tables.
\<close>

definition fill_defaults :: "action \<Rightarrow> action" where
  "fill_defaults a =
     (let a1 = (if short_description a = None
                then a\<lparr>short_description :=
                         Some (capitalize (replace_char CHR ''_'' CHR '' '' (action_name a)))\<rparr>
                else a)
      in if applies_to a1 = None then a1\<lparr>applies_to := Some (\<lambda>x. True)\<rparr> else a1)"

definition effective_name :: "action \<Rightarrow> string option \<Rightarrow> string" where
  "effective_name a nm =
     (case nm of None \<Rightarrow> action_name a | Some n \<Rightarrow> if n = [] then action_name a else n)"

definition add_action :: "site \<Rightarrow> action \<Rightarrow> string option \<Rightarrow> site" where
  "add_action s a nm =
     (let n = effective_name a nm; a' = fill_defaults a
      in s\<lparr>priv_actions := AList.update n a' (priv_actions s),
           priv_global_actions := AList.update n a' (priv_global_actions s)\<rparr>)"

definition disable_action :: "site \<Rightarrow> string \<Rightarrow> error + site" where
  "disable_action s n =
     (case dict_del (priv_actions s) n of
        Inl e \<Rightarrow> Inl e
      | Inr d \<Rightarrow> Inr (s\<lparr>priv_actions := d\<rparr>))"

definition get_action :: "site \<Rightarrow> string \<Rightarrow> error + action" where
  "get_action s n = dict_get (priv_global_actions s) n"

text \<open>The property \<^verbatim>\<open>actions\<close>: the items of \<^verbatim>\<open>_actions\<close>, stably sorted by name.\<close>

definition actions :: "site \<Rightarrow> (string \<times> action) list" where
  "actions s = sort_key fst (priv_actions s)"

fun applicable_loop ::
  "(string \<times> action) list \<Rightarrow> fileobject \<Rightarrow> (string \<times> action) list
    \<Rightarrow> error + (string \<times> action) list" where
  "applicable_loop [] fo res = Inr res"
| "applicable_loop ((n, a) # rest) fo res =
     (case applies_to a of
        None \<Rightarrow> Inl AttributeError
      | Some p \<Rightarrow> applicable_loop rest fo (if p fo then res @ [(n, a)] else res))"

definition applicable_actions :: "site \<Rightarrow> fileobject \<Rightarrow> error + (string \<times> action) list" where
  "applicable_actions s fo = applicable_loop (actions s) fo []"

text \<open>
  \<^verbatim>\<open>__init__\<close>: both tables start empty (\<^verbatim>\<open>_global_actions\<close> is a copy, not an alias,
  of \<^verbatim>\<open>_actions\<close>), and the new site is entered into the site cache.
\<close>

definition init_site :: "string option \<Rightarrow> string \<Rightarrow> string \<Rightarrow> site" where
  "init_site nm app dir =
     \<lparr>site_name = nm, app_name = app, directory = dir,
      priv_actions = [], priv_global_actions = []\<rparr>"

definition new_site ::
  "(string option, site) sites_cache \<Rightarrow> string option \<Rightarrow> string \<Rightarrow> string
    \<Rightarrow> site \<times> (string option, site) sites_cache" where
  "new_site cache nm app dir =
     (let s = init_site nm app dir in (s, register_site cache app nm s))"

text \<open>The registry states that calls of \<^verbatim>\<open>add_action\<close> and \<^verbatim>\<open>disable_action\<close> reach.\<close>

inductive reachable :: "site \<Rightarrow> bool" where
  reach_init: "reachable (init_site nm app dir)"
| reach_add: "reachable s \<Longrightarrow> reachable (add_action s a nm)"
| reach_disable: "reachable s \<Longrightarrow> disable_action s n = Inr s' \<Longrightarrow> reachable s'"

subsection \<open>The date filter\<close>

text \<open>
  \<^verbatim>\<open>time.gmtime\<close>, as far as \<^verbatim>\<open>get_filterdate\<close> reads its result: the calendar
  date (proleptic Gregorian, UTC) of a number of seconds since the epoch. The
  conversion raises outside of the platform's range; the bounds are those of a 64-bit
  \<^verbatim>\<open>time_t\<close> and of the C \<^verbatim>\<open>int\<close> that holds the year minus 1900.
\<close>

record struct_time =
  tm_year :: int
  tm_mon :: int
  tm_mday :: int

definition civil_from_days :: "int \<Rightarrow> struct_time" where
  "civil_from_days z0 =
     (let z = z0 + 719468;
          era = z div 146097;
          doe = z - era * 146097;
          yoe = (doe - doe div 1460 + doe div 36524 - doe div 146096) div 365;
          doy = doe - (365 * yoe + yoe div 4 - yoe div 100);
          mp = (5 * doy + 2) div 153;
          d = doy - (153 * mp + 2) div 5 + 1;
          m = (if mp < 10 then mp + 3 else mp - 9);
          y = yoe + era * 400 + (if m \<le> 2 then 1 else 0)
      in \<lparr>tm_year = y, tm_mon = m, tm_mday = d\<rparr>)"

definition gmtime :: "int \<Rightarrow> error + struct_time" where
  "gmtime t =
     (if t < - (2 ^ 63) \<or> 2 ^ 63 \<le> t then Inl OverflowError
      else let tm = civil_from_days (t div 86400)
           in if tm_year tm - 1900 < - (2 ^ 31) \<or> 2 ^ 31 \<le> tm_year tm - 1900
              then Inl OSError else Inr tm)"

text \<open>
  What the module reads from the clock: \<^verbatim>\<open>time()\<close> and the first three fields of
  \<^verbatim>\<open>localtime()\<close>. One request is served at one instant.
\<close>

record clock =
  time_now :: real
  localtime_now :: struct_time

text \<open>
  \<^verbatim>\<open>time.strftime\<close> with one of the formats \<^verbatim>\<open>%Y\<close>, \<^verbatim>\<open>%m\<close> and \<^verbatim>\<open>%d\<close>. It
  raises \<^verbatim>\<open>OverflowError\<close>, whatever the format, if the year of the time tuple does
  not fit a C \<^verbatim>\<open>int\<close> or is below the least \<^verbatim>\<open>int\<close> plus 1900. Otherwise its
  result is the decimal numeral of the field, which \<^verbatim>\<open>get_filterdate\<close> reads only
  through \<^verbatim>\<open>int\<close>; the model gives that number.
\<close>

datatype date_format = Format_Y | Format_m | Format_d

definition strftime :: "date_format \<Rightarrow> struct_time \<Rightarrow> error + int" where
  "strftime fmt tm =
     (if tm_year tm < - (2 ^ 31) + 1900 \<or> 2 ^ 31 \<le> tm_year tm then Inl OverflowError
      else Inr (case fmt of
                  Format_Y \<Rightarrow> tm_year tm
                | Format_m \<Rightarrow> tm_mon tm
                | Format_d \<Rightarrow> tm_mday tm))"

text \<open>
  The first three statements of \<^verbatim>\<open>get_filterdate\<close>, which it executes for every
  bucket: \<^verbatim>\<open>date_year\<close>, \<^verbatim>\<open>date_month\<close> and \<^verbatim>\<open>date_day\<close>.
\<close>

definition date_fields :: "int \<Rightarrow> error + (int \<times> int \<times> int)" where
  "date_fields date_time =
     bind_err (bind_err (gmtime date_time) (strftime Format_Y)) (\<lambda>date_year.
     bind_err (bind_err (gmtime date_time) (strftime Format_m)) (\<lambda>date_month.
     bind_err (bind_err (gmtime date_time) (strftime Format_d)) (\<lambda>date_day.
       Inr (date_year, date_month, date_day))))"

definition get_filterdate :: "clock \<Rightarrow> string \<Rightarrow> int \<Rightarrow> error + string" where
  "get_filterdate clk filter_date date_time =
     bind_err (date_fields date_time) (\<lambda>(date_year, date_month, date_day).
       let lt = localtime_now clk
       in Inr (if filter_date = ''today'' \<and> date_year = tm_year lt
                    \<and> date_month = tm_mon lt \<and> date_day = tm_mday lt then ''true''
               else if filter_date = ''thismonth''
                    \<and> real_of_int date_time \<ge> time_now clk - 2592000 then ''true''
               else if filter_date = ''thisyear'' \<and> date_year = tm_year lt then ''true''
               else if filter_date = ''past7days''
                    \<and> real_of_int date_time \<ge> time_now clk - 604800 then ''true''
               else if filter_date = [] then ''true''
               else []))"

subsection \<open>Regular expressions\<close>

text \<open>
  \<^verbatim>\<open>re.compile(pattern, flags)\<close> gives a pattern object or raises \<^verbatim>\<open>re.error\<close>; the
  views use the \<^verbatim>\<open>search\<close> method of the result as a truth value. A compiled
  pattern is modelled by that test. Patterns made of ordinary characters and of
  \<^verbatim>\<open>.\<close> are interpreted here: an ordinary character matches itself and \<^verbatim>\<open>.\<close>
  matches any character except a newline. For every other pattern, and under
  \<^verbatim>\<open>re.IGNORECASE\<close>, the outcome is that of the library, a parameter \<open>lib\<close>.
\<close>

record re_flags =
  re_IGNORECASE :: bool
  re_MULTILINE :: bool

type_synonym pattern = "string \<Rightarrow> bool"
type_synonym re_library = "string \<Rightarrow> re_flags \<Rightarrow> error + pattern"

definition re_special :: "char \<Rightarrow> bool" where
  "re_special c \<longleftrightarrow> c \<in> set (''.^$*+?{}[]|()'' @ [CHR 0x5C])"

datatype re_atom = Lit char | Dot

fun atom_matches :: "re_atom \<Rightarrow> char \<Rightarrow> bool" where
  "atom_matches (Lit a) c \<longleftrightarrow> a = c"
| "atom_matches Dot c \<longleftrightarrow> c \<noteq> CHR 0x0A"

fun match_here :: "re_atom list \<Rightarrow> string \<Rightarrow> bool" where
  "match_here [] s \<longleftrightarrow> True"
| "match_here (a # as) [] \<longleftrightarrow> False"
| "match_here (a # as) (c # cs) \<longleftrightarrow> atom_matches a c \<and> match_here as cs"

fun search_atoms :: "re_atom list \<Rightarrow> string \<Rightarrow> bool" where
  "search_atoms as [] \<longleftrightarrow> match_here as []"
| "search_atoms as (c # cs) \<longleftrightarrow> match_here as (c # cs) \<or> search_atoms as cs"

definition parse_simple :: "string \<Rightarrow> re_atom list option" where
  "parse_simple pat =
     (if \<forall>c \<in> set pat. c = CHR ''.'' \<or> \<not> re_special c
      then Some (map (\<lambda>c. if c = CHR ''.'' then Dot else Lit c) pat) else None)"

definition re_compile :: "re_library \<Rightarrow> string \<Rightarrow> re_flags \<Rightarrow> error + pattern" where
  "re_compile lib pat flags =
     (case parse_simple pat of
        Some as \<Rightarrow> if re_IGNORECASE flags then lib pat flags else Inr (search_atoms as)
      | None \<Rightarrow> lib pat flags)"

subsection \<open>The filter loop of \<^verbatim>\<open>browse\<close>\<close>

text \<open>
  The query parameters \<^verbatim>\<open>browse\<close> reads with \<^verbatim>\<open>query.get\<close>: \<open>None\<close> for a key
  that is not in the query string. A value is true in a condition if it is neither
  \<open>None\<close> nor the empty string.
\<close>

record query =
  query_q :: "string option"
  query_filter_type :: "string option"
  query_filter_date :: "string option"
  query_type :: "string option"
  query_p :: "string option"

definition truthy :: "string option \<Rightarrow> bool" where
  "truthy v \<longleftrightarrow> (case v of None \<Rightarrow> False | Some s \<Rightarrow> s \<noteq> [])"

text \<open>
  Modelled from the spec: the class \<^verbatim>\<open>FileListing\<close> of \<^verbatim>\<open>filebrowser/base.py\<close>. The
  two lists are what its methods \<^verbatim>\<open>files_walk_filtered\<close> (the recursive walk below the directory) and
  \<^verbatim>\<open>files_listing_filtered\<close> (the directory itself) return, with \<^verbatim>\<open>filter_browse\<close>
  already applied and in the requested order; \<^verbatim>\<open>browse\<close> stores the two counts.
\<close>

record filelisting =
  files_walk_filtered :: "fileobject list"
  files_listing_filtered :: "fileobject list"
  results_total :: nat
  results_current :: nat

text \<open>
  The condition of the first \<^verbatim>\<open>if\<close> in the loop body. Python's \<^verbatim>\<open>and\<close> and
  \<^verbatim>\<open>or\<close> evaluate from left to right and stop early, so \<^verbatim>\<open>get_filterdate\<close> is called
  only for an entry that passes the type filter and only with a non-empty bucket.
  The format filter is \<^verbatim>\<open>filter_format in fileobject.format\<close>, a substring test.
\<close>

definition browse_condition ::
  "clock \<Rightarrow> string option \<Rightarrow> string option \<Rightarrow> string option \<Rightarrow> fileobject \<Rightarrow> error + bool" where
  "browse_condition clk filter_type filter_date filter_format fo =
     (if \<not> (\<not> truthy filter_type \<or> Some (filetype fo) = filter_type) then Inr False
      else bind_err
             (if \<not> truthy filter_date then Inr True
              else bind_err
                     (get_filterdate clk (the filter_date)
                        (case date fo of None \<Rightarrow> 0 | Some d \<Rightarrow> d))
                     (\<lambda>r. Inr (r \<noteq> [])))
             (\<lambda>date_ok. Inr (date_ok
                  \<and> (\<not> truthy filter_format \<or> sublist (the filter_format) (format fo)))))"

text \<open>The value of \<^verbatim>\<open>append\<close> at the end of the loop body; \<open>re_q\<close> is \<open>None\<close> if there is no search.\<close>

definition browse_append ::
  "clock \<Rightarrow> string option \<Rightarrow> string option \<Rightarrow> string option \<Rightarrow> pattern option
    \<Rightarrow> fileobject \<Rightarrow> error + bool" where
  "browse_append clk filter_type filter_date filter_format re_q fo =
     bind_err (browse_condition clk filter_type filter_date filter_format fo) (\<lambda>c.
       let append0 = c;
           append1 = (case re_q of
                        None \<Rightarrow> append0
                      | Some r \<Rightarrow> if \<not> r (lower (filename fo)) then False else append0);
           append2 = (if filetype fo = ''Folder'' then True else append1)
       in Inr append2)"

fun browse_loop ::
  "clock \<Rightarrow> string option \<Rightarrow> string option \<Rightarrow> string option \<Rightarrow> pattern option
    \<Rightarrow> fileobject list \<Rightarrow> fileobject list \<Rightarrow> error + fileobject list" where
  "browse_loop clk ft fd ff re_q [] files = Inr files"
| "browse_loop clk ft fd ff re_q (fo # rest) files =
     bind_err (browse_append clk ft fd ff re_q fo) (\<lambda>append.
       browse_loop clk ft fd ff re_q rest (if append then files @ [fo] else files))"

text \<open>The list the loop runs over, and the compiled search pattern.\<close>

definition browse_listing :: "bool \<Rightarrow> query \<Rightarrow> filelisting \<Rightarrow> fileobject list" where
  "browse_listing SEARCH_TRAVERSE qry fl =
     (if SEARCH_TRAVERSE \<and> truthy (query_q qry) then files_walk_filtered fl
      else files_listing_filtered fl)"

definition browse_pattern :: "re_library \<Rightarrow> query \<Rightarrow> error + pattern option" where
  "browse_pattern lib qry =
     (if truthy (query_q qry)
      then bind_err
             (re_compile lib (lower (the (query_q qry)))
                \<lparr>re_IGNORECASE = False, re_MULTILINE = True\<rparr>)
             (\<lambda>r. Inr (Some r))
      else Inr None)"

text \<open>
  The first half of \<^verbatim>\<open>browse\<close>: the files to show, and the listing with its two
  counts filled in.
\<close>

definition browse_files ::
  "re_library \<Rightarrow> clock \<Rightarrow> bool \<Rightarrow> query \<Rightarrow> filelisting
    \<Rightarrow> error + (fileobject list \<times> filelisting)" where
  "browse_files lib clk SEARCH_TRAVERSE qry fl =
     (let listing = browse_listing SEARCH_TRAVERSE qry fl
      in bind_err (browse_pattern lib qry) (\<lambda>re_q.
         bind_err (browse_loop clk (query_filter_type qry) (query_filter_date qry)
                     (query_type qry) re_q listing []) (\<lambda>files.
           Inr (files, fl\<lparr>results_total := length listing,
                          results_current := length files\<rparr>))))"

subsection \<open>Pagination\<close>

text \<open>
  \<^verbatim>\<open>int(s)\<close> for a string. White space is skipped at both ends: the ASCII
  characters tab to carriage return and the space, and, of the characters from 128
  to 255, the next-line character \<^verbatim>\<open>0x85\<close> and the no-break space \<^verbatim>\<open>0xA0\<close>
  (the separators \<^verbatim>\<open>0x1C\<close> to \<^verbatim>\<open>0x1F\<close> are not skipped). A sign may follow, and
  the rest must be decimal digits, where one underscore may stand between two digits.
  A numeral of more than 4300 digits is refused (the default limit of Python 3.11 and
  later; underscores and the sign do not count). \<open>None\<close> stands for
  \<^verbatim>\<open>ValueError\<close>.
\<close>

definition int_space :: "char \<Rightarrow> bool" where
  "int_space c \<longleftrightarrow>
     (let n = (of_char c :: nat)
      in (9 \<le> n \<and> n \<le> 13) \<or> n = 32 \<or> n = 133 \<or> n = 160)"

definition strip :: "string \<Rightarrow> string" where
  "strip s = rev (dropWhile int_space (rev (dropWhile int_space s)))"

definition isdigit :: "char \<Rightarrow> bool" where
  "isdigit c \<longleftrightarrow> (48 \<le> (of_char c :: nat) \<and> (of_char c :: nat) \<le> 57)"

fun parse_digits :: "bool \<Rightarrow> nat \<Rightarrow> string \<Rightarrow> nat option" where
  "parse_digits after_digit acc [] = (if after_digit then Some acc else None)"
| "parse_digits after_digit acc (c # cs) =
     (if isdigit c then parse_digits True (10 * acc + (of_char c - 48)) cs
      else if c = CHR ''_'' \<and> after_digit then parse_digits False acc cs
      else None)"

definition int_max_str_digits :: nat where
  "int_max_str_digits = 4300"

definition parse_numeral :: "string \<Rightarrow> nat option" where
  "parse_numeral cs =
     (if length (filter isdigit cs) > int_max_str_digits then None
      else parse_digits False 0 cs)"

definition py_int :: "string \<Rightarrow> int option" where
  "py_int s =
     (case strip s of
        [] \<Rightarrow> None
      | c # cs \<Rightarrow>
          if c = CHR ''-'' then map_option (\<lambda>n. - int n) (parse_numeral cs)
          else if c = CHR ''+'' then map_option int (parse_numeral cs)
          else map_option int (parse_numeral (c # cs)))"

text \<open>
  Django's \<^verbatim>\<open>Paginator\<close> (\<^verbatim>\<open>django.core.paginator\<close>). \<^verbatim>\<open>browse\<close> constructs it with
  the list of files and \<^verbatim>\<open>LIST_PER_PAGE\<close>; \<^verbatim>\<open>orphans\<close> and
  \<^verbatim>\<open>allow_empty_first_page\<close> have their defaults. \<^verbatim>\<open>PageNotAnInteger\<close> and
  \<^verbatim>\<open>EmptyPage\<close> are the two subclasses of \<^verbatim>\<open>InvalidPage\<close>.
\<close>

record 'a paginator =
  object_list :: "'a list"
  per_page :: int
  orphans :: int
  allow_empty_first_page :: bool

record 'a page =
  page_object_list :: "'a list"
  page_number :: int

definition Paginator :: "'a list \<Rightarrow> int \<Rightarrow> 'a paginator" where
  "Paginator xs n =
     \<lparr>object_list = xs, per_page = n, orphans = 0, allow_empty_first_page = True\<rparr>"

definition count :: "'a paginator \<Rightarrow> int" where
  "count p = int (length (object_list p))"

text \<open>\<^verbatim>\<open>ceil(hits / self.per_page)\<close>, with the division by zero as an exception.\<close>

definition num_pages :: "'a paginator \<Rightarrow> error + int" where
  "num_pages p =
     (if count p = 0 \<and> \<not> allow_empty_first_page p then Inr 0
      else let hits = max 1 (count p - orphans p)
           in if per_page p = 0 then Inl ZeroDivisionError
              else Inr \<lceil>real_of_int hits / real_of_int (per_page p)\<rceil>)"

text \<open>A page number comes as a string from the request or as an integer.\<close>

datatype page_arg = Page_str string | Page_int int

definition validate_number :: "'a paginator \<Rightarrow> page_arg \<Rightarrow> error + int" where
  "validate_number p number =
     (case (case number of Page_int i \<Rightarrow> Some i | Page_str s \<Rightarrow> py_int s) of
        None \<Rightarrow> Inl PageNotAnInteger
      | Some n \<Rightarrow>
          if n < 1 then Inl EmptyPage
          else bind_err (num_pages p) (\<lambda>np. if n > np then Inl EmptyPage else Inr n))"

text \<open>The slice \<^verbatim>\<open>xs[bottom:top]\<close> of a list, for any two integers.\<close>

definition slice_index :: "nat \<Rightarrow> int \<Rightarrow> nat" where
  "slice_index n i = (if i < 0 then nat (max 0 (int n + i)) else min n (nat i))"

definition py_slice :: "'a list \<Rightarrow> int \<Rightarrow> int \<Rightarrow> 'a list" where
  "py_slice xs bottom top' =
     (let lo = slice_index (length xs) bottom; hi = slice_index (length xs) top'
      in take (hi - lo) (drop lo xs))"

definition page :: "'a paginator \<Rightarrow> page_arg \<Rightarrow> error + 'a page" where
  "page p number =
     bind_err (validate_number p number) (\<lambda>n.
       let bottom = (n - 1) * per_page p;
           top0 = bottom + per_page p;
           top' = (if top0 + orphans p \<ge> count p then count p else top0)
       in Inr \<lparr>page_object_list = py_slice (object_list p) bottom top', page_number = n\<rparr>)"

text \<open>
  The second half of \<^verbatim>\<open>browse\<close>: the page of the files the request asks for with
  its parameter \<^verbatim>\<open>p\<close> (\<^verbatim>\<open>'1'\<close> if absent), and the last page if that raises
  \<^verbatim>\<open>EmptyPage\<close> or \<^verbatim>\<open>InvalidPage\<close>.
\<close>

definition browse_page :: "'a list \<Rightarrow> int \<Rightarrow> string option \<Rightarrow> error + 'a page" where
  "browse_page files LIST_PER_PAGE p_param =
     (let p = Paginator files LIST_PER_PAGE;
          page_nr = (case p_param of None \<Rightarrow> ''1'' | Some s \<Rightarrow> s)
      in case page p (Page_str page_nr) of
           Inr pg \<Rightarrow> Inr pg
         | Inl e \<Rightarrow>
             if e = EmptyPage \<or> e = PageNotAnInteger
             then bind_err (num_pages p) (\<lambda>np. page p (Page_int np))
             else Inl e)"

text \<open>
  For the properties of the pagination: the number the request asks for, if it is one,
  the number of the last page, and the number of the page to show, which is the
  requested one if that is between 1 and the last page, and the last page otherwise.
\<close>

definition requested_page :: "string option \<Rightarrow> int option" where
  "requested_page p_param = py_int (case p_param of None \<Rightarrow> ''1'' | Some s \<Rightarrow> s)"

definition last_page :: "'a list \<Rightarrow> int \<Rightarrow> int" where
  "last_page files n = \<lceil>real_of_int (max 1 (int (length files))) / real_of_int n\<rceil>"

definition page_in_range :: "'a list \<Rightarrow> int \<Rightarrow> string option \<Rightarrow> bool" where
  "page_in_range files n p_param \<longleftrightarrow>
     (case requested_page p_param of
        None \<Rightarrow> False
      | Some k \<Rightarrow> 1 \<le> k \<and> k \<le> last_page files n)"

definition shown_page :: "'a list \<Rightarrow> int \<Rightarrow> string option \<Rightarrow> int" where
  "shown_page files n p_param =
     (if page_in_range files n p_param then the (requested_page p_param)
      else last_page files n)"

text \<open>Example data: a list of 25 items.\<close>

definition example_items :: "nat list" where
  "example_items = [1 ..< 26]"

subsection \<open>The upload view\<close>

text \<open>\<^verbatim>\<open>os.path.join\<close> of two paths and \<^verbatim>\<open>os.path.basename\<close>, as in \<^verbatim>\<open>posixpath\<close>.\<close>

definition os_path_join :: "string \<Rightarrow> string \<Rightarrow> string" where
  "os_path_join a b =
     (if b \<noteq> [] \<and> hd b = CHR ''/'' then b
      else if a = [] \<or> last a = CHR ''/'' then a @ b
      else a @ ''/'' @ b)"

definition os_path_basename :: "string \<Rightarrow> string" where
  "os_path_basename p = rev (takeWhile (\<lambda>c. c \<noteq> CHR ''/'') (rev p))"

text \<open>
  The storage of the site is a collaborator behind an interface. Its state has an
  arbitrary type \<open>'st\<close>; the view uses the four methods below, and \<^verbatim>\<open>os.chmod\<close>
  on the full path of a file. \<^verbatim>\<open>save\<close> returns the name the backend has stored the
  content under. \<open>path_full\<close> gives the attribute \<^verbatim>\<open>path_full\<close> of the
  \<^verbatim>\<open>FileObject\<close> of a path (\<^verbatim>\<open>filebrowser/base.py\<close>), the path of the file in the
  file system.
\<close>

record 'st storage =
  storage_exists :: "'st \<Rightarrow> string \<Rightarrow> bool"
  storage_isdir :: "'st \<Rightarrow> string \<Rightarrow> bool"
  storage_save :: "'st \<Rightarrow> string \<Rightarrow> string \<Rightarrow> error + (string \<times> 'st)"
  storage_move :: "'st \<Rightarrow> string \<Rightarrow> string \<Rightarrow> bool \<Rightarrow> error + 'st"
  path_full :: "string \<Rightarrow> string"
  os_chmod :: "'st \<Rightarrow> string \<Rightarrow> nat \<Rightarrow> error + 'st"

text \<open>
  What the view changes: the state of the storage, and the record of what it has sent
  and called, in order: the signal before the upload with the folder and the name of
  the file, \<^verbatim>\<open>storage.save\<close> with the path asked for and the path returned,
  \<^verbatim>\<open>storage.move\<close>, \<^verbatim>\<open>os.chmod\<close>, and the signal after the upload with the
  folder and the path of the file.
\<close>

datatype event =
    Pre_upload string string
  | Save string string
  | Move string string bool
  | Chmod string nat
  | Post_upload string string

record 'st world =
  store :: 'st
  trace :: "event list"

text \<open>
  The settings and the functions of other modules that the view uses:
  \<^verbatim>\<open>convert_filename\<close> of \<^verbatim>\<open>filebrowser.utils\<close>, the substitution
  \<^verbatim>\<open>fb_uploadurl_re.sub('', folder)\<close>, which removes the upload URL of the site from
  the folder parameter, and \<^verbatim>\<open>os.path.relpath\<close>, which depends on the working
  directory.
\<close>

record upload_env =
  site_directory :: string
  UPLOAD_TEMPDIR :: string
  OVERWRITE_EXISTING :: bool
  DEFAULT_PERMISSIONS :: "nat option"
  convert_filename :: "string \<Rightarrow> string"
  fb_uploadurl_sub :: "string \<Rightarrow> string"
  os_path_relpath :: "string \<Rightarrow> string \<Rightarrow> error + string"
  sanitize_name :: "string \<Rightarrow> error + string"

record uploaded_file =
  upload_name :: string
  upload_content :: string

text \<open>
  An assignment to the \<^verbatim>\<open>name\<close> of an uploaded file goes through the setter of
  Django's \<^verbatim>\<open>UploadedFile\<close>. It raises \<^verbatim>\<open>SuspiciousFileOperation\<close> for the
  empty name, \<^verbatim>\<open>.\<close> and \<^verbatim>\<open>..\<close>, and it stores any other name without a slash
  and of at most 255 characters as it is. What it does with a name that has a slash
  or is longer (it keeps the base name, shortens it, or raises) is the parameter
  \<open>sanitize_name\<close>.
\<close>

definition plain_file_name :: "string \<Rightarrow> bool" where
  "plain_file_name n \<longleftrightarrow>
     CHR ''/'' \<notin> set n \<and> length n \<le> 255 \<and> n \<noteq> [] \<and> n \<noteq> ''.'' \<and> n \<noteq> ''..''"

definition set_name :: "upload_env \<Rightarrow> uploaded_file \<Rightarrow> string \<Rightarrow> error + uploaded_file" where
  "set_name env file n =
     bind_err (if n = [] \<or> n = ''.'' \<or> n = ''..'' then Inl SuspiciousFileOperation
               else if plain_file_name n then Inr n
               else sanitize_name env n)
       (\<lambda>n'. Inr (file\<lparr>upload_name := n'\<rparr>))"

text \<open>
  The request: its method, the two parameters read with \<^verbatim>\<open>request.GET.get\<close>, and
  \<^verbatim>\<open>list(request.FILES.values())\<close>, one uploaded file for each key.
\<close>

record request =
  request_method :: string
  get_folder :: "string option"
  get_temporary :: "string option"
  request_files :: "uploaded_file list"

text \<open>
  The JSON object of the answer; \<open>temp_filename\<close> is \<open>None\<close> if the object has no
  such key and \<open>Some None\<close> if its value is \<^verbatim>\<open>null\<close>.
\<close>

record upload_json =
  success :: bool
  json_filename :: string
  temp_filename :: "string option option"

datatype response = HttpResponseBadRequest string | HttpResponse upload_json

definition handle_file_upload ::
  "'st storage \<Rightarrow> string \<Rightarrow> uploaded_file \<Rightarrow> 'st world \<Rightarrow> error + (string \<times> 'st world)" where
  "handle_file_upload sto path file w =
     (let file_path = os_path_join path (upload_name file)
      in bind_err (storage_save sto (store w) file_path (upload_content file))
           (\<lambda>(uploadedfile, s).
              Inr (uploadedfile,
                   w\<lparr>store := s, trace := trace w @ [Save file_path uploadedfile]\<rparr>)))"

text \<open>The folder, the directory to upload into, the converted name and the path to check.\<close>

definition upload_folder :: "upload_env \<Rightarrow> request \<Rightarrow> string" where
  "upload_folder env req =
     fb_uploadurl_sub env (case get_folder req of None \<Rightarrow> [] | Some f \<Rightarrow> f)"

definition upload_temporary :: "upload_env \<Rightarrow> request \<Rightarrow> bool" where
  "upload_temporary env req \<longleftrightarrow>
     upload_folder env req = UPLOAD_TEMPDIR env \<and> get_temporary req = Some ''true''"

definition upload_path :: "upload_env \<Rightarrow> request \<Rightarrow> string" where
  "upload_path env req =
     (if upload_temporary env req then upload_folder env req
      else os_path_join (site_directory env) (upload_folder env req))"

definition upload_file_name :: "upload_env \<Rightarrow> request \<Rightarrow> string" where
  "upload_file_name env req = convert_filename env (upload_name (hd (request_files req)))"

definition upload_file_path :: "upload_env \<Rightarrow> request \<Rightarrow> string" where
  "upload_file_path env req = os_path_join (upload_path env req) (upload_file_name env req)"

text \<open>The step \<^verbatim>\<open>os.chmod(f.path_full, DEFAULT_PERMISSIONS)\<close>, taken if a mode is configured.\<close>

definition set_permissions ::
  "upload_env \<Rightarrow> 'st storage \<Rightarrow> string \<Rightarrow> 'st world \<Rightarrow> error + 'st world" where
  "set_permissions env sto f_path w =
     (case DEFAULT_PERMISSIONS env of
        None \<Rightarrow> Inr w
      | Some mode \<Rightarrow>
          bind_err (os_chmod sto (store w) (path_full sto f_path) mode)
            (\<lambda>s. Inr (w\<lparr>store := s,
                         trace := trace w @ [Chmod (path_full sto f_path) mode]\<rparr>)))"

text \<open>
  \<^verbatim>\<open>_upload_file\<close>. The result is the response (\<open>None\<close> for a request that is not a
  \<^verbatim>\<open>POST\<close>, where the function returns nothing), the uploaded files of the request
  with the name the view has given to the file, and the world after the call.
  \<^verbatim>\<open>FileObject(path)\<close> has the base name of the path as its \<^verbatim>\<open>filename\<close>.
\<close>

definition upload_file ::
  "upload_env \<Rightarrow> 'st storage \<Rightarrow> 'st world \<Rightarrow> request
    \<Rightarrow> error + (response option \<times> uploaded_file list \<times> 'st world)" where
  "upload_file env sto w req =
     (if request_method req \<noteq> ''POST'' then Inr (None, request_files req, w)
      else if length (request_files req) = 0
        then Inr (Some (HttpResponseBadRequest ''Invalid request! No files included.''),
                  request_files req, w)
      else if length (request_files req) > 1
        then Inr (Some (HttpResponseBadRequest ''Invalid request! Multiple files included.''),
                  request_files req, w)
      else
        let folder = upload_folder env req;
            path = upload_path env req;
            file_name = upload_file_name env req
        in bind_err (set_name env (hd (request_files req)) file_name) (\<lambda>filedata.
           let file_path = upload_file_path env req;
               file_already_exists = storage_exists sto (store w) file_path;
               temp_name = (if upload_temporary env req
                            then Some (os_path_join folder file_name) else None)
           in if file_already_exists \<and> storage_isdir sto (store w) file_path
              then Inr (Some (HttpResponse
                          \<lparr>success = False, json_filename = file_name,
                           temp_filename = None\<rparr>),
                        [filedata], w)
              else
                let w1 = w\<lparr>trace := trace w @ [Pre_upload folder (upload_name filedata)]\<rparr>
                in bind_err (handle_file_upload sto path filedata w1) (\<lambda>(uploadedfile, w2).
                   bind_err
                     (if file_already_exists \<and> OVERWRITE_EXISTING env
                      then bind_err (storage_move sto (store w2) uploadedfile file_path True)
                             (\<lambda>s. Inr (file_path, filedata,
                                        w2\<lparr>store := s,
                                           trace := trace w2 @
                                             [Move uploadedfile file_path True]\<rparr>))
                      else bind_err (os_path_relpath env uploadedfile path) (\<lambda>rel.
                           bind_err (set_name env filedata rel) (\<lambda>filedata'.
                             Inr (uploadedfile, filedata', w2))))
                     (\<lambda>(f_path, filedata', w3).
                   bind_err (set_permissions env sto f_path w3)
                     (\<lambda>w4.
                      Inr (Some (HttpResponse
                             \<lparr>success = True, json_filename = os_path_basename f_path,
                              temp_filename = Some temp_name\<rparr>),
                           [filedata'],
                           w4\<lparr>trace := trace w4 @ [Post_upload folder f_path]\<rparr>))))))"

text \<open>
  A storage for the examples: a dictionary from paths to directories and files, where
  a path that ends in \<^verbatim>\<open>/.\<close> stands for the directory before it. It stores a file
  under the name asked for, or under that name followed by \<^verbatim>\<open>_1\<close> if the name is
  taken. In the example environment every file is uploaded into the directory itself,
  where the relative path of a file is its base name.
\<close>

datatype node = Directory | File string "nat option"

type_synonym example_store = "node pydict"

definition example_resolve :: "string \<Rightarrow> string" where
  "example_resolve p =
     (if drop (length p - 2) p = ''/.'' then take (length p - 2) p else p)"

definition example_storage :: "example_store storage" where
  "example_storage =
     \<lparr>storage_exists = (\<lambda>s p. map_of s (example_resolve p) \<noteq> None),
      storage_isdir = (\<lambda>s p. map_of s (example_resolve p) = Some Directory),
      storage_save = (\<lambda>s p c.
         let p' = (if map_of s p = None then p else p @ ''_1'')
         in Inr (p', AList.update p' (File c None) s)),
      storage_move = (\<lambda>s a b allow_overwrite.
         case map_of s a of
           None \<Rightarrow> Inl OSError
         | Some n \<Rightarrow> if map_of s b \<noteq> None \<and> \<not> allow_overwrite then Inl OSError
                     else Inr (AList.update b n (AList.delete a s))),
      path_full = (\<lambda>p. ''/srv/media/'' @ p),
      os_chmod = (\<lambda>s p mode.
         case map_of s (drop 11 p) of
           Some (File c m) \<Rightarrow> Inr (AList.update (drop 11 p) (File c (Some mode)) s)
         | _ \<Rightarrow> Inl OSError)\<rparr>"



text \<open>
  A conversion of file names for the examples: lower case, and without the characters
  other than letters, digits, the dot, the hyphen and the underscore.
\<close>

definition example_convert :: "string \<Rightarrow> string" where
  "example_convert n =
     filter (\<lambda>c. (97 \<le> (of_char c :: nat) \<and> (of_char c :: nat) \<le> 122) \<or> isdigit c
                  \<or> c = CHR ''.'' \<or> c = CHR ''-'' \<or> c = CHR ''_'')
       (lower n)"

definition example_env :: upload_env where
  "example_env =
     \<lparr>site_directory = ''uploads'', UPLOAD_TEMPDIR = ''_temp'', OVERWRITE_EXISTING = False,
      DEFAULT_PERMISSIONS = Some 420, convert_filename = example_convert,
      fb_uploadurl_sub = (\<lambda>f. f),
      os_path_relpath = (\<lambda>p start. Inr (os_path_basename p)),
      sanitize_name = (\<lambda>n. Inr (os_path_basename n))\<rparr>"

definition example_request :: request where
  "example_request =
     \<lparr>request_method = ''POST'', get_folder = None, get_temporary = None,
      request_files = [\<lparr>upload_name = ''Report.pdf'', upload_content = ''new''\<rparr>]\<rparr>"

definition odd_request :: request where
  "odd_request =
     \<lparr>request_method = ''POST'', get_folder = None, get_temporary = None,
      request_files = [\<lparr>upload_name = ''?.?'', upload_content = ''new''\<rparr>]\<rparr>"

subsection \<open>Auxiliary notions for the properties\<close>

text \<open>
  The invariant of the active table: its keys are distinct, and every stored action
  has its \<^verbatim>\<open>applies_to\<close> attribute.
\<close>

definition well_formed :: "site \<Rightarrow> bool" where
  "well_formed s \<longleftrightarrow>
     distinct (map fst (priv_actions s))
     \<and> list_all (\<lambda>p. applies_to (snd p) \<noteq> None) (priv_actions s)"

text \<open>The outcome of \<^verbatim>\<open>action.applies_to(fileobject)\<close> for an entry of the listing.\<close>

definition applies :: "fileobject \<Rightarrow> string \<times> action \<Rightarrow> bool" where
  "applies fo p = (case applies_to (snd p) of None \<Rightarrow> False | Some f \<Rightarrow> f fo)"

definition is_folder :: "fileobject \<Rightarrow> bool" where
  "is_folder fo \<longleftrightarrow> filetype fo = ''Folder''"

text \<open>Example data: a directory with one folder and two files, and a clock.\<close>

definition example_folder :: fileobject where
  "example_folder = \<lparr>filename = ''docs'', filetype = ''Folder'', date = None, format = []\<rparr>"

definition example_document :: fileobject where
  "example_document =
     \<lparr>filename = ''Report.pdf'', filetype = ''Document'', date = Some 1700000000,
      format = ''file''\<rparr>"

definition example_image :: fileobject where
  "example_image =
     \<lparr>filename = ''photo.jpg'', filetype = ''Image'', date = Some 1600000000,
      format = ''image''\<rparr>"

definition example_listing :: filelisting where
  "example_listing =
     \<lparr>files_walk_filtered = [example_folder, example_document, example_image],
      files_listing_filtered = [example_folder, example_document, example_image],
      results_total = 0, results_current = 0\<rparr>"

definition example_clock :: clock where
  "example_clock =
     \<lparr>time_now = 1700000100,
      localtime_now = \<lparr>tm_year = 2023, tm_mon = 11, tm_mday = 15\<rparr>\<rparr>"

definition no_query :: query where
  "no_query =
     \<lparr>query_q = None, query_filter_type = None, query_filter_date = None,
      query_type = None, query_p = None\<rparr>"

text \<open>A regular expression library that rejects every pattern it is asked about.\<close>

definition no_library :: re_library where
  "no_library pat flags = Inl Re_error"

definition example_action :: "string \<Rightarrow> action" where
  "example_action n = \<lparr>action_name = n, short_description = None, applies_to = None\<rparr>"

section \<open>Properties\<close>

subsection \<open>The site cache\<close>

text \<open>
  C9. \<^verbatim>\<open>register_site\<close> inserts or overwrites the binding of the key
  (application name, site name): after two registrations under the same key the
  lookup under that key gives the second site, and a registration leaves the lookup
  under every other key as it was.
\<close>

theorem register_site_overwrites:
  "sites_cache_lookup (register_site (register_site c app n s1) app n s2) app n = Inr s2
   \<and> (\<forall>app' n'. (app', n') \<noteq> (app, n) \<longrightarrow>
         sites_cache_lookup (register_site c app n s1) app' n'
           = sites_cache_lookup c app' n')"
  by (auto simp add: register_site_def sites_cache_lookup_def Let_def dom_def
        split: option.splits)

theorem register_site_overwrites_witness:
  "(''filebrowser'', ''media'') \<noteq> (''filebrowser'', ''filebrowser'')
   \<and> sites_cache_lookup
        (register_site
           (register_site (register_site Map.empty ''filebrowser'' ''media'' (7::nat))
              ''filebrowser'' ''filebrowser'' 1)
           ''filebrowser'' ''filebrowser'' 2)
        ''filebrowser'' ''filebrowser'' = Inr 2
   \<and> sites_cache_lookup
        (register_site (register_site Map.empty ''filebrowser'' ''media'' (7::nat))
           ''filebrowser'' ''filebrowser'' 1)
        ''filebrowser'' ''media'' = Inr 7"
  using register_site_overwrites
          [of "register_site Map.empty ''filebrowser'' ''media'' (7::nat)"
              "''filebrowser''" "''filebrowser''" 1 2]
  by (simp add: register_site_def sites_cache_lookup_def)

subsection \<open>The action registry\<close>

text \<open>
  C6. After an action has been registered under a name and that name has been
  disabled, the name is absent from the listing of the active actions, and
  \<^verbatim>\<open>get_action\<close> still returns the registered action: \<^verbatim>\<open>disable_action\<close> deletes
  from \<^verbatim>\<open>_actions\<close> only.
\<close>

theorem disable_keeps_lookup:
  "disable_action (add_action s a nm) (effective_name a nm)
     = Inr ((add_action s a nm)
              \<lparr>priv_actions :=
                 AList.delete (effective_name a nm) (priv_actions (add_action s a nm))\<rparr>)
   \<and> effective_name a nm
       \<notin> fst ` set (actions ((add_action s a nm)
              \<lparr>priv_actions :=
                 AList.delete (effective_name a nm) (priv_actions (add_action s a nm))\<rparr>))
   \<and> get_action ((add_action s a nm)
              \<lparr>priv_actions :=
                 AList.delete (effective_name a nm) (priv_actions (add_action s a nm))\<rparr>)
        (effective_name a nm) = Inr (fill_defaults a)"
  by (simp add: Let_def add_action_def disable_action_def dict_del_def get_action_def
        dict_get_def actions_def update_conv' dom_update delete_notin_dom)

theorem disable_keeps_lookup_witness:
  "map fst (actions (add_action (init_site None ''filebrowser'' ''uploads'')
                       (example_action ''flip'') None)) = [''flip'']
   \<and> map_sum id (\<lambda>s. map fst (actions s))
        (disable_action (add_action (init_site None ''filebrowser'' ''uploads'')
                           (example_action ''flip'') None) ''flip'') = Inr []
   \<and> map_sum id (\<lambda>s. map_sum id action_name (get_action s ''flip''))
        (disable_action (add_action (init_site None ''filebrowser'' ''uploads'')
                           (example_action ''flip'') None) ''flip'') = Inr (Inr ''flip'')"
  using disable_keeps_lookup
          [of "init_site None ''filebrowser'' ''uploads''" "example_action ''flip''" None]
  by (simp add: effective_name_def example_action_def add_action_def init_site_def
        actions_def get_action_def dict_get_def fill_defaults_def Let_def)

lemma fill_defaults_applies: "applies_to (fill_defaults a) \<noteq> None"
  by (simp add: fill_defaults_def Let_def)

lemma set_update_subset: "set (AList.update k v d) \<subseteq> insert (k, v) (set d)"
  by (induction d) auto

lemma set_delete_subset: "set (AList.delete k d) \<subseteq> set d"
  by (induction d) auto

lemma reachable_well_formed: "reachable s \<Longrightarrow> well_formed s"
proof (induction rule: reachable.induct)
  case (reach_init nm app dir)
  show ?case by (simp add: well_formed_def init_site_def)
next
  case (reach_add s a nm)
  have "applies_to (snd p) \<noteq> None"
    if "p \<in> set (AList.update (effective_name a nm) (fill_defaults a) (priv_actions s))" for p
  proof -
    from that have "p = (effective_name a nm, fill_defaults a) \<or> p \<in> set (priv_actions s)"
      using set_update_subset by fastforce
    then show ?thesis
      using reach_add.IH fill_defaults_applies[of a]
      by (auto simp: well_formed_def list_all_iff)
  qed
  then have "list_all (\<lambda>p. applies_to (snd p) \<noteq> None)
               (AList.update (effective_name a nm) (fill_defaults a) (priv_actions s))"
    unfolding list_all_iff by blast
  with reach_add.IH show ?case
    by (simp add: well_formed_def add_action_def Let_def distinct_update)
next
  case (reach_disable s n s')
  from reach_disable.hyps(2)
  have s': "s' = s\<lparr>priv_actions := AList.delete n (priv_actions s)\<rparr>"
    by (auto simp: disable_action_def dict_del_def split: if_splits)
  show ?case
    using reach_disable.IH set_delete_subset[of n "priv_actions s"]
    by (auto simp: s' well_formed_def distinct_delete list_all_iff)
qed

lemma applicable_loop_filter:
  "list_all (\<lambda>p. applies_to (snd p) \<noteq> None) xs \<Longrightarrow>
   applicable_loop xs fo res = Inr (res @ filter (applies fo) xs)"
  by (induction xs fo res rule: applicable_loop.induct) (auto simp: applies_def)

lemma distinct_sort_key:
  "distinct (map f xs) \<Longrightarrow> distinct (map f (sort_key f xs))"
  by (induction xs) (auto simp: distinct_insort_key)

text \<open>
  C7. In every state of the registry that calls of \<^verbatim>\<open>add_action\<close> and
  \<^verbatim>\<open>disable_action\<close> reach, \<^verbatim>\<open>actions\<close> lists exactly the pairs of the active table,
  in ascending order of their names, which are pairwise different; and
  \<^verbatim>\<open>applicable_actions\<close> returns, without raising, the pairs of that list whose
  \<^verbatim>\<open>applies_to\<close> holds of the file object, in the same order.
\<close>

theorem actions_sorted_applicable_filtered:
  assumes "reachable s"
  shows "sorted (map fst (actions s))
       \<and> distinct (map fst (actions s))
       \<and> set (actions s) = set (priv_actions s)
       \<and> length (actions s) = length (priv_actions s)
       \<and> applicable_actions s fo = Inr (filter (applies fo) (actions s))"
proof -
  have wf: "well_formed s" using assms by (rule reachable_well_formed)
  have 1: "sorted (map fst (actions s))" by (simp add: actions_def)
  have 2: "set (actions s) = set (priv_actions s)" by (simp add: actions_def)
  have 3: "distinct (map fst (actions s))"
    using wf by (simp add: actions_def well_formed_def distinct_sort_key)
  have "list_all (\<lambda>p. applies_to (snd p) \<noteq> None) (actions s)"
    using wf 2 by (simp add: well_formed_def list_all_iff)
  then have 4: "applicable_actions s fo = Inr (filter (applies fo) (actions s))"
    by (simp add: applicable_actions_def applicable_loop_filter)
  from 1 2 3 4 show ?thesis by (simp add: actions_def)
qed

theorem actions_sorted_applicable_filtered_witness:
  "reachable (add_action (add_action (init_site None ''filebrowser'' ''uploads'')
                (example_action ''rotate_180'') None)
              ((example_action ''flip_vertical'')
                 \<lparr>applies_to := Some (\<lambda>fo. filetype fo = ''Image'')\<rparr>) None)
   \<and> map fst (actions (add_action (add_action (init_site None ''filebrowser'' ''uploads'')
                (example_action ''rotate_180'') None)
              ((example_action ''flip_vertical'')
                 \<lparr>applies_to := Some (\<lambda>fo. filetype fo = ''Image'')\<rparr>) None))
       = [''flip_vertical'', ''rotate_180'']
   \<and> map_sum id (map fst)
        (applicable_actions (add_action (add_action (init_site None ''filebrowser'' ''uploads'')
                (example_action ''rotate_180'') None)
              ((example_action ''flip_vertical'')
                 \<lparr>applies_to := Some (\<lambda>fo. filetype fo = ''Image'')\<rparr>) None)
           example_document) = Inr [''rotate_180'']"
proof -
  let ?s = "add_action (add_action (init_site None ''filebrowser'' ''uploads'')
                (example_action ''rotate_180'') None)
              ((example_action ''flip_vertical'')
                 \<lparr>applies_to := Some (\<lambda>fo. filetype fo = ''Image'')\<rparr>) None"
  have r: "reachable ?s"
    by (intro reach_add reach_init)
  have a: "actions ?s =
     [(''flip_vertical'', fill_defaults ((example_action ''flip_vertical'')
                 \<lparr>applies_to := Some (\<lambda>fo. filetype fo = ''Image'')\<rparr>)),
      (''rotate_180'', fill_defaults (example_action ''rotate_180''))]"
    by (simp add: actions_def add_action_def init_site_def example_action_def
          effective_name_def Let_def)
  from actions_sorted_applicable_filtered[OF r, of example_document]
  have ap: "applicable_actions ?s example_document
              = Inr (filter (applies example_document) (actions ?s))"
    by blast
  have "map fst (actions ?s) = [''flip_vertical'', ''rotate_180'']"
    unfolding a by simp
  moreover have "map_sum id (map fst) (applicable_actions ?s example_document)
                   = Inr [''rotate_180'']"
    unfolding ap a
    by (simp add: applies_def fill_defaults_def example_action_def example_document_def)
  ultimately show ?thesis using r by blast
qed

subsection \<open>The date filter\<close>

lemma date_fields_eq:
  "date_fields t = Inr (y, m, d) \<longleftrightarrow>
     gmtime t = Inr \<lparr>tm_year = y, tm_mon = m, tm_mday = d\<rparr> \<and> y < 2 ^ 31"
proof (cases "gmtime t")
  case (Inl e)
  then show ?thesis by (simp add: date_fields_def bind_err_def)
next
  case (Inr tm)
  then have "- (2 ^ 31) + 1900 \<le> tm_year tm"
    by (auto simp add: gmtime_def Let_def split: if_splits)
  with Inr show ?thesis
    by (cases tm) (auto simp add: date_fields_def strftime_def bind_err_def)
qed



text \<open>
  Beyond the range of the conversions the filter raises, for every bucket: here for a
  timestamp whose UTC year is \<open>2 ^ 31\<close>, which \<^verbatim>\<open>gmtime\<close> converts and \<^verbatim>\<open>strftime\<close>
  refuses, and for one beyond the range of \<^verbatim>\<open>time_t\<close>.
\<close>

lemma get_filterdate_out_of_range:
  "get_filterdate clk b 67767976233532800 = Inl OverflowError"
  "get_filterdate clk b (2 ^ 63) = Inl OverflowError"
proof -
  have "date_fields 67767976233532800 = Inl OverflowError"
    "date_fields (2 ^ 63) = Inl OverflowError"
    by code_simp+
  then show "get_filterdate clk b 67767976233532800 = Inl OverflowError"
    "get_filterdate clk b (2 ^ 63) = Inl OverflowError"
    by (simp_all add: get_filterdate_def bind_err_def)
qed

subsection \<open>The filter loop\<close>

lemma browse_loop_filter:
  "browse_loop clk ft fd ff rq xs acc = Inr r \<Longrightarrow>
     r = acc @ filter (\<lambda>fo. browse_append clk ft fd ff rq fo = Inr True) xs
     \<and> list_all (\<lambda>fo. \<exists>b. browse_append clk ft fd ff rq fo = Inr b) xs"
proof (induction xs arbitrary: acc)
  case Nil
  then show ?case by simp
next
  case (Cons fo xs)
  from Cons.prems obtain b where b: "browse_append clk ft fd ff rq fo = Inr b"
    and rest: "browse_loop clk ft fd ff rq xs (if b then acc @ [fo] else acc) = Inr r"
    by (cases "browse_append clk ft fd ff rq fo") (simp_all add: bind_err_def)
  from Cons.IH[OF rest] b show ?case by (cases b) auto
qed

lemma browse_append_folder:
  "browse_append clk ft fd ff rq fo = Inr b \<Longrightarrow> is_folder fo \<Longrightarrow> b"
  by (auto simp: browse_append_def bind_err_def Let_def is_folder_def split: sum.splits)

lemma browse_files_loop:
  assumes "browse_files lib clk st qry fl = Inr (files, fl')"
  shows "\<exists>rq. browse_pattern lib qry = Inr rq
     \<and> browse_loop clk (query_filter_type qry) (query_filter_date qry) (query_type qry) rq
          (browse_listing st qry fl) [] = Inr files
     \<and> fl' = fl\<lparr>results_total := length (browse_listing st qry fl),
                 results_current := length files\<rparr>"
  using assms by (auto simp: browse_files_def bind_err_def Let_def split: sum.splits)

text \<open>
  The filter loop returns whenever the search pattern compiles and \<^verbatim>\<open>gmtime\<close>
  and \<^verbatim>\<open>strftime\<close> convert the date of every entry of the listing.
\<close>

lemma browse_loop_returns:
  assumes "list_all (\<lambda>fo. \<exists>ymd. date_fields (case date fo of None \<Rightarrow> 0 | Some d \<Rightarrow> d) = Inr ymd) xs"
  shows "\<exists>r. browse_loop clk ft fd ff rq xs acc = Inr r"
  using assms
proof (induction xs arbitrary: acc)
  case Nil
  show ?case by simp
next
  case (Cons fo xs)
  from Cons.prems obtain ymd where
    tm: "date_fields (case date fo of None \<Rightarrow> 0 | Some d \<Rightarrow> d) = Inr ymd"
    and rest: "list_all (\<lambda>fo. \<exists>ymd. date_fields (case date fo of None \<Rightarrow> 0 | Some d \<Rightarrow> d) = Inr ymd) xs"
    by auto
  have "\<exists>c. browse_condition clk ft fd ff fo = Inr c"
    by (cases ymd)
       (auto simp add: browse_condition_def get_filterdate_def bind_err_def tm Let_def)
  then obtain a where "browse_append clk ft fd ff rq fo = Inr a"
    by (auto simp add: browse_append_def bind_err_def Let_def)
  with Cons.IH[OF rest] show ?case
    by (simp add: bind_err_def)
qed

lemma browse_files_returns:
  assumes "browse_pattern lib qry = Inr rq"
    and "list_all (\<lambda>fo. \<exists>ymd. date_fields (case date fo of None \<Rightarrow> 0 | Some d \<Rightarrow> d) = Inr ymd)
           (browse_listing st qry fl)"
  shows "\<exists>files fl'. browse_files lib clk st qry fl = Inr (files, fl')"
proof -
  from browse_loop_returns[OF assms(2)] obtain r where
    "browse_loop clk (query_filter_type qry) (query_filter_date qry) (query_type qry) rq
       (browse_listing st qry fl) [] = Inr r"
    by blast
  with assms(1) show ?thesis
    by (simp add: browse_files_def bind_err_def Let_def)
qed

text \<open>
  C1. Whenever \<^verbatim>\<open>browse\<close> gets through the filter loop, whatever the type, date,
  format and search parameters are, \<^verbatim>\<open>results_total\<close> is the length of the listing,
  \<^verbatim>\<open>results_current\<close> is the number of files kept and is at most
  \<^verbatim>\<open>results_total\<close>, and every entry of the listing whose file type is
  \<^verbatim>\<open>Folder\<close> is kept: the folders of the result are the folders of the listing, in
  the same order and as many times.
\<close>

theorem browse_counts_and_folders:
  assumes "browse_files lib clk st qry fl = Inr (files, fl')"
  shows "results_total fl' = length (browse_listing st qry fl)
       \<and> results_current fl' = length files
       \<and> results_current fl' \<le> results_total fl'
       \<and> list_all (\<lambda>fo. is_folder fo \<longrightarrow> fo \<in> set files) (browse_listing st qry fl)
       \<and> filter is_folder files = filter is_folder (browse_listing st qry fl)"
proof -
  let ?L = "browse_listing st qry fl"
  from browse_files_loop[OF assms] obtain rq where
    loop: "browse_loop clk (query_filter_type qry) (query_filter_date qry) (query_type qry)
             rq ?L [] = Inr files"
    and fl': "fl' = fl\<lparr>results_total := length ?L, results_current := length files\<rparr>"
    by blast
  let ?P = "\<lambda>fo. browse_append clk (query_filter_type qry) (query_filter_date qry)
                  (query_type qry) rq fo = Inr True"
  from browse_loop_filter[OF loop] have files: "files = filter ?P ?L"
    and ok: "list_all (\<lambda>fo. \<exists>b. browse_append clk (query_filter_type qry)
                  (query_filter_date qry) (query_type qry) rq fo = Inr b) ?L"
    by simp_all
  have folder: "?P fo" if "fo \<in> set ?L" "is_folder fo" for fo
  proof -
    from ok that(1) obtain b where
      b: "browse_append clk (query_filter_type qry) (query_filter_date qry)
            (query_type qry) rq fo = Inr b"
      unfolding list_all_iff by blast
    from browse_append_folder[OF b that(2)] b show ?thesis by simp
  qed
  have 1: "length files \<le> length ?L" by (simp add: files)
  have 2: "list_all (\<lambda>fo. is_folder fo \<longrightarrow> fo \<in> set files) ?L"
    unfolding list_all_iff using folder by (simp add: files)
  have 3: "filter is_folder files = filter is_folder ?L"
    unfolding files filter_filter by (rule filter_cong) (use folder in auto)
  from 1 2 3 show ?thesis by (simp add: fl')
qed

theorem browse_counts_and_folders_witness:
  "browse_files no_library example_clock False
      (no_query\<lparr>query_filter_type := Some ''Image'', query_filter_date := Some ''today''\<rparr>)
      example_listing
     = Inr ([example_folder],
            example_listing\<lparr>results_total := 3, results_current := 1\<rparr>)
   \<and> results_current (example_listing\<lparr>results_total := 3, results_current := 1\<rparr>)
       \<le> results_total (example_listing\<lparr>results_total := 3, results_current := 1\<rparr>)
   \<and> filter is_folder [example_folder]
       = filter is_folder [example_folder, example_document, example_image]"
proof -
  have g: "date_fields 1600000000 = Inr (2020, 9, 13)"
    by code_simp
  have e: "browse_files no_library example_clock False
      (no_query\<lparr>query_filter_type := Some ''Image'', query_filter_date := Some ''today''\<rparr>)
      example_listing
     = Inr ([example_folder],
            example_listing\<lparr>results_total := 3, results_current := 1\<rparr>)"
    by (simp add: browse_files_def browse_listing_def browse_pattern_def truthy_def
          bind_err_def browse_append_def browse_condition_def Let_def no_query_def
          example_listing_def example_folder_def example_document_def example_image_def
          example_clock_def get_filterdate_def g)
  from browse_counts_and_folders[OF e] e show ?thesis
    by (simp add: browse_listing_def truthy_def no_query_def example_listing_def)
qed






subsection \<open>The search\<close>

lemma match_here_literals: "match_here (map Lit s) t \<longleftrightarrow> prefix s t"
  by (induction s arbitrary: t) (auto simp: prefix_Cons neq_Nil_conv, (case_tac t; simp)+)

lemma search_atoms_literals: "search_atoms (map Lit s) t \<longleftrightarrow> sublist s t"
proof (induction t)
  case Nil
  show ?case by (cases s) simp_all
next
  case (Cons c t)
  then show ?case
    by (simp add: match_here_literals sublist_Cons_right)
qed

lemma re_compile_plain:
  assumes "list_all (\<lambda>c. \<not> re_special c) pat"
  shows "re_compile lib pat \<lparr>re_IGNORECASE = False, re_MULTILINE = m\<rparr> = Inr (sublist pat)"
proof -
  from assms have nodot: "\<forall>c \<in> set pat. c \<noteq> CHR ''.''"
    by (auto simp: list_all_iff re_special_def)
  with assms have "parse_simple pat = Some (map Lit pat)"
    by (auto simp: parse_simple_def list_all_iff)
  moreover have "search_atoms (map Lit pat) = sublist pat"
    by (rule ext) (rule search_atoms_literals)
  ultimately show ?thesis by (simp add: re_compile_def)
qed

lemma browse_pattern_search:
  assumes "truthy (query_q qry)" and "browse_pattern lib qry = Inr rq"
  shows "\<exists>r. rq = Some r
           \<and> re_compile lib (lower (the (query_q qry)))
                \<lparr>re_IGNORECASE = False, re_MULTILINE = True\<rparr> = Inr r"
  using assms by (auto simp: browse_pattern_def bind_err_def split: sum.splits)

lemma browse_append_search:
  assumes "browse_append clk ft fd ff (Some r) fo = Inr a"
  shows "a \<longleftrightarrow> is_folder fo
           \<or> (browse_condition clk ft fd ff fo = Inr True \<and> r (lower (filename fo)))"
  using assms
  by (cases "browse_condition clk ft fd ff fo")
     (auto simp add: browse_append_def bind_err_def Let_def is_folder_def split: if_splits)

text \<open>
  C8, as the code has it. With a search term \<^verbatim>\<open>q\<close>, \<^verbatim>\<open>browse\<close> compiles the
  lower-cased term as a regular expression and keeps an entry that is not a folder if
  and only if the entry passes the type, date and format filters and the expression
  matches somewhere in the lower-cased file name. If the lower-cased term has no
  special character of the regular expression syntax, this is the test whether it is
  a substring of the lower-cased file name. The entries examined are those of the
  recursive walk if \<^verbatim>\<open>SEARCH_TRAVERSE\<close> is set, and those of the directory itself
  otherwise.
\<close>

theorem search_is_regex_search:
  assumes "truthy (query_q qry)"
    and "browse_files lib clk st qry fl = Inr (files, fl')"
  shows "(\<exists>r. re_compile lib (lower (the (query_q qry)))
                 \<lparr>re_IGNORECASE = False, re_MULTILINE = True\<rparr> = Inr r
            \<and> files = filter (\<lambda>fo. is_folder fo
                           \<or> (browse_condition clk (query_filter_type qry)
                                 (query_filter_date qry) (query_type qry) fo = Inr True
                              \<and> r (lower (filename fo))))
                        (if st then files_walk_filtered fl else files_listing_filtered fl))
       \<and> (list_all (\<lambda>c. \<not> re_special c) (lower (the (query_q qry))) \<longrightarrow>
            files = filter (\<lambda>fo. is_folder fo
                           \<or> (browse_condition clk (query_filter_type qry)
                                 (query_filter_date qry) (query_type qry) fo = Inr True
                              \<and> sublist (lower (the (query_q qry))) (lower (filename fo))))
                        (if st then files_walk_filtered fl else files_listing_filtered fl))"
proof -
  let ?L = "if st then files_walk_filtered fl else files_listing_filtered fl"
  let ?C = "\<lambda>fo. browse_condition clk (query_filter_type qry) (query_filter_date qry)
                  (query_type qry) fo = Inr True"
  have L: "browse_listing st qry fl = ?L"
    using assms(1) by (simp add: browse_listing_def)
  from browse_files_loop[OF assms(2)] obtain rq where
    pat: "browse_pattern lib qry = Inr rq"
    and loop: "browse_loop clk (query_filter_type qry) (query_filter_date qry)
                 (query_type qry) rq ?L [] = Inr files"
    unfolding L by blast
  from browse_pattern_search[OF assms(1) pat] obtain r where
    rq: "rq = Some r"
    and r: "re_compile lib (lower (the (query_q qry)))
              \<lparr>re_IGNORECASE = False, re_MULTILINE = True\<rparr> = Inr r"
    by blast
  let ?A = "\<lambda>fo. browse_append clk (query_filter_type qry) (query_filter_date qry)
                  (query_type qry) (Some r) fo"
  from browse_loop_filter[OF loop] have files: "files = filter (\<lambda>fo. ?A fo = Inr True) ?L"
    and ok: "list_all (\<lambda>fo. \<exists>a. ?A fo = Inr a) ?L"
    unfolding rq by simp_all
  have "(?A fo = Inr True) = (is_folder fo \<or> (?C fo \<and> r (lower (filename fo))))"
    if "fo \<in> set ?L" for fo
  proof -
    from ok that obtain a where a: "?A fo = Inr a"
      unfolding list_all_iff by blast
    from browse_append_search[OF a] a show ?thesis by simp
  qed
  then have 1: "files = filter (\<lambda>fo. is_folder fo \<or> (?C fo \<and> r (lower (filename fo)))) ?L"
    unfolding files by (intro filter_cong) simp_all
  have 2: "files = filter (\<lambda>fo. is_folder fo
              \<or> (?C fo \<and> sublist (lower (the (query_q qry))) (lower (filename fo)))) ?L"
    if plain: "list_all (\<lambda>c. \<not> re_special c) (lower (the (query_q qry)))"
  proof -
    from re_compile_plain[OF plain, of lib True] r
    have "r = sublist (lower (the (query_q qry)))" by simp
    with 1 show ?thesis by simp
  qed
  from r 1 2 show ?thesis by blast
qed

theorem search_is_regex_search_witness:
  "truthy (query_q (no_query\<lparr>query_q := Some ''REPORT''\<rparr>))
   \<and> browse_files no_library example_clock True (no_query\<lparr>query_q := Some ''REPORT''\<rparr>)
        example_listing
       = Inr ([example_folder, example_document],
              example_listing\<lparr>results_total := 3, results_current := 2\<rparr>)
   \<and> list_all (\<lambda>c. \<not> re_special c) (lower ''REPORT'')
   \<and> [example_folder, example_document]
       = filter (\<lambda>fo. is_folder fo \<or> sublist (lower ''REPORT'') (lower (filename fo)))
           [example_folder, example_document, example_image]"
proof -
  have t: "truthy (query_q (no_query\<lparr>query_q := Some ''REPORT''\<rparr>))"
    by (simp add: truthy_def)
  have lo: "lower ''REPORT'' = ''report''" "lower ''Report.pdf'' = ''report.pdf''"
    "lower ''photo.jpg'' = ''photo.jpg''" "lower ''docs'' = ''docs''"
    by code_simp+
  have plain: "list_all (\<lambda>c. \<not> re_special c) (lower ''REPORT'')"
    by (simp add: lo re_special_def)
  have e: "browse_files no_library example_clock True (no_query\<lparr>query_q := Some ''REPORT''\<rparr>)
        example_listing
       = Inr ([example_folder, example_document],
              example_listing\<lparr>results_total := 3, results_current := 2\<rparr>)"
    by (simp add: browse_files_def browse_listing_def browse_pattern_def truthy_def
          bind_err_def browse_append_def browse_condition_def Let_def no_query_def
          example_listing_def example_folder_def example_document_def example_image_def
          re_compile_def parse_simple_def re_special_def lo)
  have c: "browse_condition example_clock None None None fo = Inr True" for fo
    by (simp add: browse_condition_def truthy_def bind_err_def)
  from search_is_regex_search[OF t e] plain
  have "[example_folder, example_document]
       = filter (\<lambda>fo. is_folder fo \<or> sublist (lower ''REPORT'') (lower (filename fo)))
           (files_walk_filtered example_listing)"
    by (simp add: no_query_def c)
  with t e plain show ?thesis by (simp add: example_listing_def)
qed

text \<open>
  C8 as the specification has it fails: the term \<^verbatim>\<open>ph.to\<close> is not a substring of
  the name \<^verbatim>\<open>photo.jpg\<close>, and the search for it keeps that file, because \<^verbatim>\<open>.\<close>
  stands for any character.
\<close>

theorem search_is_substring_counterexample:
  "browse_files no_library example_clock False (no_query\<lparr>query_q := Some ''ph.to''\<rparr>)
        example_listing
       = Inr ([example_folder, example_image],
              example_listing\<lparr>results_total := 3, results_current := 2\<rparr>)
   \<and> \<not> is_folder example_image
   \<and> \<not> sublist (lower ''ph.to'') (lower (filename example_image))"
proof -
  have lo: "lower ''ph.to'' = ''ph.to''" "lower ''Report.pdf'' = ''report.pdf''"
    "lower ''photo.jpg'' = ''photo.jpg''" "lower ''docs'' = ''docs''"
    by code_simp+
  have e: "browse_files no_library example_clock False (no_query\<lparr>query_q := Some ''ph.to''\<rparr>)
        example_listing
       = Inr ([example_folder, example_image],
              example_listing\<lparr>results_total := 3, results_current := 2\<rparr>)"
    by (simp add: browse_files_def browse_listing_def browse_pattern_def truthy_def
          bind_err_def browse_append_def browse_condition_def Let_def no_query_def
          example_listing_def example_folder_def example_document_def example_image_def
          re_compile_def parse_simple_def re_special_def lo)
  have n: "\<not> sublist ''ph.to'' ''photo.jpg''"
    by (simp add: sublist_code prefix_code)
  from e n show ?thesis
    by (simp add: lo is_folder_def example_image_def)
qed

subsection \<open>Pagination\<close>

lemma num_pages_last_page:
  assumes "0 < n"
  shows "num_pages (Paginator files n) = Inr (last_page files n)"
  using assms by (simp add: num_pages_def Paginator_def count_def last_page_def Let_def)

lemma last_page_div: "0 < n \<Longrightarrow> last_page files n = - ((- max 1 (int (length files))) div n)"
  unfolding last_page_def by (rule ceiling_divide_eq_div)

lemma last_page_bounds:
  assumes "0 < n"
  shows "1 \<le> last_page files n"
    and "(last_page files n - 1) * n < max 1 (int (length files))"
    and "int (length files) \<le> last_page files n * n"
proof -
  let ?h = "max 1 (int (length files))"
  define q where "q = (- ?h) div n"
  define r where "r = (- ?h) mod n"
  have eq: "- ?h = q * n + r" by (simp add: q_def r_def)
  have r: "0 \<le> r" "r < n" using assms by (simp_all add: r_def)
  have np: "last_page files n = - q" using assms by (simp add: last_page_div q_def)
  have "q * n < 0" using eq r(1) by linarith
  then have "q < 0" using assms by (simp add: mult_less_0_iff)
  then show "1 \<le> last_page files n" by (simp add: np)
  have "(- q - 1) * n = - (q * n) - n" by (simp add: algebra_simps)
  then show "(last_page files n - 1) * n < ?h" using eq r(2) by (simp add: np)
  have "?h \<le> - (q * n)" using eq r(1) by linarith
  then show "int (length files) \<le> last_page files n * n" by (simp add: np)
qed

lemma py_slice_page:
  assumes "0 < n" and "0 \<le> b"
  shows "py_slice xs b (if b + n \<ge> int (length xs) then int (length xs) else b + n)
           = take (nat n) (drop (nat b) xs)"
proof (cases "b + n \<ge> int (length xs)")
  case True
  then have "length xs - nat b \<le> nat n" using assms by linarith
  with True assms show ?thesis
    by (simp add: py_slice_def slice_index_def Let_def min_def)
next
  case False
  then have "nat (b + n) - nat b = nat n" "nat b \<le> length xs" "nat (b + n) \<le> length xs"
    using assms by linarith+
  with False assms show ?thesis
    by (simp add: py_slice_def slice_index_def Let_def min_def)
qed

lemma page_in_range_eq:
  assumes "0 < n" and "1 \<le> k" and "k \<le> last_page files n"
    and "(case number of Page_int i \<Rightarrow> Some i | Page_str s \<Rightarrow> py_int s) = Some k"
  shows "page (Paginator files n) number
           = Inr \<lparr>page_object_list = take (nat n) (drop (nat ((k - 1) * n)) files),
                  page_number = k\<rparr>"
proof -
  have v: "validate_number (Paginator files n) number = Inr k"
    using assms by (simp add: validate_number_def num_pages_last_page bind_err_def)
  have b: "0 \<le> (k - 1) * n" using assms by simp
  have "py_slice files ((k - 1) * n)
          (if (k - 1) * n + n \<ge> int (length files) then int (length files)
           else (k - 1) * n + n)
        = take (nat n) (drop (nat ((k - 1) * n)) files)"
    using py_slice_page[OF assms(1) b] .
  then show ?thesis
    unfolding page_def v bind_err_def
    by (simp add: Paginator_def count_def Let_def cong: if_cong)
qed

lemma page_out_of_range:
  assumes "0 < n"
    and "\<not> (\<exists>k. (case number of Page_int i \<Rightarrow> Some i | Page_str s \<Rightarrow> py_int s) = Some k
              \<and> 1 \<le> k \<and> k \<le> last_page files n)"
  shows "page (Paginator files n) number = Inl EmptyPage
       \<or> page (Paginator files n) number = Inl PageNotAnInteger"
proof (cases "case number of Page_int i \<Rightarrow> Some i | Page_str s \<Rightarrow> py_int s")
  case None
  then have "validate_number (Paginator files n) number = Inl PageNotAnInteger"
    by (simp add: validate_number_def)
  then show ?thesis by (simp add: page_def bind_err_def)
next
  case (Some k)
  with assms(2) have "k < 1 \<or> last_page files n < k" by auto
  with Some have "validate_number (Paginator files n) number = Inl EmptyPage"
    by (auto simp add: validate_number_def num_pages_last_page[OF assms(1)] bind_err_def)
  then show ?thesis by (simp add: page_def bind_err_def)
qed

text \<open>
  C5. For a positive page size, the pagination of \<^verbatim>\<open>browse\<close> never raises. It
  shows the requested page if the parameter is a number between 1 and the number of
  pages, and the last page otherwise, that is, if the parameter is not a number, is
  less than 1 or is greater than the number of pages. The number of pages is at least
  1; for an empty list it is 1, and the page shown is the empty page with number 1.
\<close>

theorem browse_page_clamps:
  assumes "0 < n"
  shows "num_pages (Paginator files n) = Inr (last_page files n)
       \<and> 1 \<le> last_page files n
       \<and> browse_page files n p_param
           = Inr \<lparr>page_object_list =
                    take (nat n) (drop (nat ((shown_page files n p_param - 1) * n)) files),
                  page_number = shown_page files n p_param\<rparr>
       \<and> (\<not> page_in_range files n p_param \<longrightarrow>
             browse_page files n p_param
               = Inr \<lparr>page_object_list = drop (nat ((last_page files n - 1) * n)) files,
                      page_number = last_page files n\<rparr>)
       \<and> (files = [] \<longrightarrow>
             last_page files n = 1
             \<and> browse_page files n p_param = Inr \<lparr>page_object_list = [], page_number = 1\<rparr>)"
proof -
  let ?s = "case p_param of None \<Rightarrow> ''1'' | Some s \<Rightarrow> s"
  let ?np = "last_page files n"
  note np = num_pages_last_page[OF assms, of files]
  note lb = last_page_bounds[OF assms, of files]
  have lastpg: "page (Paginator files n) (Page_int ?np)
      = Inr \<lparr>page_object_list = take (nat n) (drop (nat ((?np - 1) * n)) files),
             page_number = ?np\<rparr>"
    by (rule page_in_range_eq[OF assms lb(1)]) simp_all
  have shown: "browse_page files n p_param
           = Inr \<lparr>page_object_list =
                    take (nat n) (drop (nat ((shown_page files n p_param - 1) * n)) files),
                  page_number = shown_page files n p_param\<rparr>"
  proof (cases "page_in_range files n p_param")
    case True
    then obtain k where k: "py_int ?s = Some k" "1 \<le> k" "k \<le> ?np"
      by (auto simp: page_in_range_def requested_page_def split: option.splits)
    have "page (Paginator files n) (Page_str ?s)
      = Inr \<lparr>page_object_list = take (nat n) (drop (nat ((k - 1) * n)) files),
             page_number = k\<rparr>"
      by (rule page_in_range_eq[OF assms k(2) k(3)]) (simp add: k(1))
    moreover have "shown_page files n p_param = k"
      using True k(1) by (simp add: shown_page_def requested_page_def)
    ultimately show ?thesis by (simp add: browse_page_def Let_def)
  next
    case False
    then have "\<not> (\<exists>k. (case Page_str ?s of Page_int i \<Rightarrow> Some i | Page_str s \<Rightarrow> py_int s)
                       = Some k \<and> 1 \<le> k \<and> k \<le> ?np)"
      by (auto simp: page_in_range_def requested_page_def)
    from page_out_of_range[OF assms this]
    have "browse_page files n p_param = page (Paginator files n) (Page_int ?np)"
      by (auto simp add: browse_page_def Let_def np bind_err_def)
    with False lastpg show ?thesis by (simp add: shown_page_def)
  qed
  have "length files - nat ((?np - 1) * n) \<le> nat n"
    using lb(3) assms by (simp add: algebra_simps)
  then have tk: "take (nat n) (drop (nat ((?np - 1) * n)) files)
                   = drop (nat ((?np - 1) * n)) files"
    by simp
  have clamp: "browse_page files n p_param
               = Inr \<lparr>page_object_list = drop (nat ((?np - 1) * n)) files,
                      page_number = ?np\<rparr>"
    if "\<not> page_in_range files n p_param"
    using shown that tk by (simp add: shown_page_def)
  have empty: "?np = 1 \<and> browse_page files n p_param
                 = Inr \<lparr>page_object_list = [], page_number = 1\<rparr>"
    if "files = []"
  proof -
    from lb(2) that have "(?np - 1) * n < 1" by simp
    with assms lb(1) have one: "?np = 1"
      by (smt (verit) mult_le_0_iff zero_less_mult_iff)
    then have "shown_page files n p_param = 1"
      using lb(1) by (auto simp: shown_page_def page_in_range_def split: option.splits)
    with shown that one show ?thesis by simp
  qed
  from np lb(1) shown clamp empty show ?thesis by blast
qed

theorem browse_page_clamps_witness:
  "(0::int) < 10
   \<and> browse_page [] 10 (Some ''5'')
       = Inr \<lparr>page_object_list = ([] :: fileobject list), page_number = 1\<rparr>
   \<and> browse_page example_items 10 (Some ''99'')
       = Inr \<lparr>page_object_list = [21 ..< 26], page_number = 3\<rparr>
   \<and> browse_page example_items 10 (Some ''abc'')
       = Inr \<lparr>page_object_list = [21 ..< 26], page_number = 3\<rparr>
   \<and> browse_page example_items 10 (Some ''0'')
       = Inr \<lparr>page_object_list = [21 ..< 26], page_number = 3\<rparr>
   \<and> browse_page example_items 10 (Some ''2'')
       = Inr \<lparr>page_object_list = [11 ..< 21], page_number = 2\<rparr>"
proof -
  have n: "(0::int) < 10" by simp
  have lp: "last_page example_items 10 = 3" "last_page ([] :: fileobject list) 10 = 1"
    by (simp_all add: last_page_div example_items_def)
  have rq: "requested_page (Some ''5'') = Some 5" "requested_page (Some ''99'') = Some 99"
    "requested_page (Some ''abc'') = None" "requested_page (Some ''0'') = Some 0"
    "requested_page (Some ''2'') = Some 2"
    by code_simp+
  have sh: "shown_page ([] :: fileobject list) 10 (Some ''5'') = 1"
    "shown_page example_items 10 (Some ''99'') = 3"
    "shown_page example_items 10 (Some ''abc'') = 3"
    "shown_page example_items 10 (Some ''0'') = 3"
    "shown_page example_items 10 (Some ''2'') = 2"
    unfolding shown_page_def page_in_range_def lp rq by simp_all
  have "browse_page [] 10 (Some ''5'')
       = Inr \<lparr>page_object_list = ([] :: fileobject list), page_number = 1\<rparr>"
    using browse_page_clamps[OF n, of "[] :: fileobject list" "Some ''5''"]
    unfolding sh by simp
  moreover have "browse_page example_items 10 (Some ''99'')
       = Inr \<lparr>page_object_list = [21 ..< 26], page_number = 3\<rparr>"
    using browse_page_clamps[OF n, of example_items "Some ''99''"]
    unfolding sh by (simp add: example_items_def)
  moreover have "browse_page example_items 10 (Some ''abc'')
       = Inr \<lparr>page_object_list = [21 ..< 26], page_number = 3\<rparr>"
    using browse_page_clamps[OF n, of example_items "Some ''abc''"]
    unfolding sh by (simp add: example_items_def)
  moreover have "browse_page example_items 10 (Some ''0'')
       = Inr \<lparr>page_object_list = [21 ..< 26], page_number = 3\<rparr>"
    using browse_page_clamps[OF n, of example_items "Some ''0''"]
    unfolding sh by (simp add: example_items_def)
  moreover have "browse_page example_items 10 (Some ''2'')
       = Inr \<lparr>page_object_list = [11 ..< 21], page_number = 2\<rparr>"
    using browse_page_clamps[OF n, of example_items "Some ''2''"]
    unfolding sh by (simp add: example_items_def)
  ultimately show ?thesis using n by blast
qed

subsection \<open>The upload\<close>


lemma set_name_plain:
  "plain_file_name n \<Longrightarrow> set_name env file n = Inr (file\<lparr>upload_name := n\<rparr>)"
  by (simp add: set_name_def plain_file_name_def bind_err_def)

text \<open>
  C2, as the code has it. A \<^verbatim>\<open>POST\<close> of one file, whose converted name the
  uploaded file accepts as its new name, and whose path, the upload directory joined
  with the converted name, exists in the storage and is a directory, is answered with
  \<^verbatim>\<open>success: false\<close> and the converted name, and the world is returned as it was:
  the state of the storage is the same, and nothing is added to the record of signals
  and calls, so there is no save, no move and no change of permissions.
\<close>

theorem upload_onto_directory_refused:
  assumes "request_method req = ''POST''"
    and "request_files req = [fd]"
    and "set_name env fd (upload_file_name env req) = Inr fd1"
    and "storage_exists sto (store w) (upload_file_path env req)"
    and "storage_isdir sto (store w) (upload_file_path env req)"
  shows "upload_file env sto w req
           = Inr (Some (HttpResponse
                    \<lparr>success = False, json_filename = upload_file_name env req,
                     temp_filename = None\<rparr>),
                  [fd1], w)"
  using assms by (simp add: upload_file_def Let_def bind_err_def)

theorem upload_onto_directory_refused_witness:
  "request_method example_request = ''POST''
   \<and> upload_file_path example_env example_request = ''uploads/report.pdf''
   \<and> upload_file example_env example_storage
        \<lparr>store = [(''uploads/report.pdf'', Directory)], trace = []\<rparr> example_request
       = Inr (Some (HttpResponse
                \<lparr>success = False, json_filename = ''report.pdf'', temp_filename = None\<rparr>),
              [\<lparr>upload_name = ''report.pdf'', upload_content = ''new''\<rparr>],
              \<lparr>store = [(''uploads/report.pdf'', Directory)], trace = []\<rparr>)"
proof -
  let ?fd = "\<lparr>upload_name = ''Report.pdf'', upload_content = ''new''\<rparr>"
  have lo: "example_convert ''Report.pdf'' = ''report.pdf''" by code_simp
  have n: "upload_file_name example_env example_request = ''report.pdf''"
    by (simp add: upload_file_name_def example_env_def example_request_def lo)
  have p: "upload_file_path example_env example_request = ''uploads/report.pdf''"
    unfolding upload_file_path_def n
    by (simp add: upload_path_def upload_temporary_def upload_folder_def os_path_join_def
          example_env_def example_request_def)
  have m: "request_method example_request = ''POST''"
    and f: "request_files example_request = [?fd]"
    by (simp_all add: example_request_def)
  have sn: "set_name example_env ?fd (upload_file_name example_env example_request)
              = Inr \<lparr>upload_name = ''report.pdf'', upload_content = ''new''\<rparr>"
    unfolding n by (simp add: set_name_def plain_file_name_def bind_err_def)
  have e: "storage_exists example_storage
             (store \<lparr>store = [(''uploads/report.pdf'', Directory)], trace = []\<rparr>)
             (upload_file_path example_env example_request)"
    and d: "storage_isdir example_storage
             (store \<lparr>store = [(''uploads/report.pdf'', Directory)], trace = []\<rparr>)
             (upload_file_path example_env example_request)"
    unfolding p by (simp_all add: example_storage_def example_resolve_def)
  from upload_onto_directory_refused[OF m f sn e d] m p
  show ?thesis unfolding n by simp
qed

text \<open>
  C2 as the specification has it fails. The file \<^verbatim>\<open>?.?\<close> is uploaded into
  \<^verbatim>\<open>uploads\<close>; its converted name is \<^verbatim>\<open>.\<close>, and the path \<^verbatim>\<open>uploads/.\<close> exists and
  is a directory. The view assigns the converted name to the uploaded file before it
  looks at the storage, the assignment raises, and there is no answer with
  \<^verbatim>\<open>success: false\<close>.
\<close>

theorem upload_onto_directory_counterexample:
  "request_method odd_request = ''POST''
   \<and> length (request_files odd_request) = 1
   \<and> upload_file_name example_env odd_request = ''.''
   \<and> upload_file_path example_env odd_request = ''uploads/.''
   \<and> storage_exists example_storage [(''uploads'', Directory)]
         (upload_file_path example_env odd_request)
   \<and> storage_isdir example_storage [(''uploads'', Directory)]
         (upload_file_path example_env odd_request)
   \<and> upload_file example_env example_storage
         \<lparr>store = [(''uploads'', Directory)], trace = []\<rparr> odd_request
       = Inl SuspiciousFileOperation"
proof -
  have c: "example_convert ''?.?'' = ''.''" by code_simp
  have n: "upload_file_name example_env odd_request = ''.''"
    by (simp add: upload_file_name_def example_env_def odd_request_def c)
  have p: "upload_file_path example_env odd_request = ''uploads/.''"
    unfolding upload_file_path_def n
    by (simp add: upload_path_def upload_temporary_def upload_folder_def os_path_join_def
          example_env_def odd_request_def)
  have m: "request_method odd_request = ''POST''"
    and f: "length (request_files odd_request) = 1"
    by (simp_all add: odd_request_def)
  have e: "storage_exists example_storage [(''uploads'', Directory)]
             (upload_file_path example_env odd_request)"
    and d: "storage_isdir example_storage [(''uploads'', Directory)]
             (upload_file_path example_env odd_request)"
    unfolding p by (simp_all add: example_storage_def example_resolve_def)
  have u: "upload_file example_env example_storage
         \<lparr>store = [(''uploads'', Directory)], trace = []\<rparr> odd_request
       = Inl SuspiciousFileOperation"
    unfolding upload_file_def Let_def n
    by (simp add: m f set_name_def bind_err_def)
  from m f n p e d u show ?thesis by blast
qed





end
